theory Spec2Isabelle
  imports Main "HOL-Library.Word" "HOL-Library.AList" "HOL-Library.Char_ord" "HOL-Library.List_Lexorder"
begin

section \<open>Time values\<close>

text \<open>
  A Go \<^verbatim>\<open>time.Time\<close> is an instant together with a location. The instant is kept as
  nanoseconds since the Unix epoch (an unbounded integer: Go stores seconds and nanoseconds
  separately, so the range of an \<^verbatim>\<open>int64\<close> of nanoseconds does not limit it). The
  location is kept as its offset in seconds east of UTC; \<^verbatim>\<open>time.Now\<close> returns the
  local location, \<^verbatim>\<open>time.Parse\<close> without a zone returns UTC (offset 0).
\<close>

record gotime =
  unixNano :: int
  zoneOffset :: int

definition nanosPerSecond :: int where
  "nanosPerSecond = 1000000000"

definition nanosPerHour :: int where
  "nanosPerHour = 3600 * nanosPerSecond"

text \<open>\<^verbatim>\<open>t.Unix()\<close>: whole seconds since the epoch (rounded down).\<close>

definition Unix :: "gotime \<Rightarrow> int" where
  "Unix t = unixNano t div nanosPerSecond"

text \<open>
  The wall clock of \<^verbatim>\<open>t\<close>: Go computes the presentation form from the instant shifted
  by the offset of the location.
\<close>

definition wallSeconds :: "gotime \<Rightarrow> int" where
  "wallSeconds t = Unix t + zoneOffset t"




definition Hour :: "gotime \<Rightarrow> int" where
  "Hour t = (wallSeconds t div 3600) mod 24"

text \<open>Days since 1970-01-01 on the wall clock of \<^verbatim>\<open>t\<close>: fixes year, month and day.\<close>

definition wallDay :: "gotime \<Rightarrow> int" where
  "wallDay t = wallSeconds t div 86400"

text \<open>
  \<^verbatim>\<open>t.Truncate(d)\<close> rounds the instant down to a multiple of \<^verbatim>\<open>d\<close> since Go's zero
  time (January 1, year 1, 00:00 UTC) and keeps the location. The Unix epoch is a whole
  number of hours after the zero time, so for \<^verbatim>\<open>d = time.Hour\<close> the multiples are the
  instants whose Unix nanoseconds are divisible by an hour.
\<close>

definition Truncate :: "gotime \<Rightarrow> int \<Rightarrow> gotime" where
  "Truncate t d = (if d \<le> 0 then t else t\<lparr>unixNano := unixNano t - unixNano t mod d\<rparr>)"

text \<open>\<^verbatim>\<open>func truncateToHour(t time.Time) time.Time { return t.Truncate(time.Hour) }\<close>\<close>

definition truncateToHour :: "gotime \<Rightarrow> gotime" where
  "truncateToHour t = Truncate t nanosPerHour"

text \<open>\<^verbatim>\<open>t.Add(d)\<close>, \<^verbatim>\<open>t.After(u)\<close>: arithmetic and comparison of instants.\<close>

definition Add :: "gotime \<Rightarrow> int \<Rightarrow> gotime" where
  "Add t d = t\<lparr>unixNano := unixNano t + d\<rparr>"

definition After :: "gotime \<Rightarrow> gotime \<Rightarrow> bool" where
  "After t u = (unixNano u < unixNano t)"


section \<open>Calendar dates and the hour-bucket suffix\<close>

text \<open>
  \<^verbatim>\<open>datetimeSuffixLayout = "2006010215"\<close>: a four-digit year, a two-digit month, a
  two-digit day and the hour. The proleptic Gregorian calendar is computed on day numbers
  (days since 1970-01-01), as Go's \<^verbatim>\<open>time.Date\<close> and \<^verbatim>\<open>Time.Date\<close> do.
\<close>

definition isLeap :: "int \<Rightarrow> bool" where
  "isLeap y = (y mod 4 = 0 \<and> (if y mod 100 = 0 then y mod 400 = 0 else True))"

definition daysIn :: "int \<Rightarrow> int \<Rightarrow> int" where
  "daysIn m y =
     (if m = 2 then (if isLeap y then 29 else 28)
      else if m = 4 \<or> m = 6 \<or> m = 9 \<or> m = 11 then 30 else 31)"

definition daysFromCivil :: "int \<Rightarrow> int \<Rightarrow> int \<Rightarrow> int" where
  "daysFromCivil y m d =
     (let y' = (if m \<le> 2 then y - 1 else y);
          era = y' div 400;
          yoe = y' - era * 400;
          doy = (153 * (if 2 < m then m - 3 else m + 9) + 2) div 5 + d - 1;
          doe = yoe * 365 + yoe div 4 - yoe div 100 + doy
      in era * 146097 + doe - 719468)"

definition civilFromDays :: "int \<Rightarrow> int \<times> int \<times> int" where
  "civilFromDays z0 =
     (let z = z0 + 719468;
          era = z div 146097;
          doe = z - era * 146097;
          yoe = (doe - doe div 1460 + doe div 36524 - doe div 146096) div 365;
          doy = doe - (365 * yoe + yoe div 4 - yoe div 100);
          mp = (5 * doy + 2) div 153;
          d = doy - (153 * mp + 2) div 5 + 1;
          m = (if mp < 10 then mp + 3 else mp - 9)
      in (if m \<le> 2 then yoe + era * 400 + 1 else yoe + era * 400, m, d))"

text \<open>\<^verbatim>\<open>time.Date(year, month, day, hour, 0, 0, 0, time.UTC)\<close>\<close>

definition DateUTC :: "int \<Rightarrow> int \<Rightarrow> int \<Rightarrow> int \<Rightarrow> gotime" where
  "DateUTC y m d h =
     \<lparr>unixNano = (daysFromCivil y m d * 86400 + h * 3600) * nanosPerSecond, zoneOffset = 0\<rparr>"

definition isDigit :: "char \<Rightarrow> bool" where
  "isDigit c = (c \<in> set ''0123456789'')"

definition digitVal :: "char \<Rightarrow> int" where
  "digitVal c = int (of_char c) - 48"

definition digitChar :: "nat \<Rightarrow> char" where
  "digitChar n = ''0123456789'' ! (n mod 10)"

text \<open>
  \<^verbatim>\<open>getnum(s, fixed)\<close> of package time: one or two leading digits; with \<^verbatim>\<open>fixed\<close>
  exactly two are required.
\<close>

definition getnum :: "string \<Rightarrow> bool \<Rightarrow> (int \<times> string) option" where
  "getnum s fixed =
     (case s of
        [] \<Rightarrow> None
      | c # r \<Rightarrow>
          if \<not> isDigit c then None
          else (case r of
                  [] \<Rightarrow> (if fixed then None else Some (digitVal c, r))
                | c' # r' \<Rightarrow>
                    if \<not> isDigit c' then (if fixed then None else Some (digitVal c, r))
                    else Some (digitVal c * 10 + digitVal c', r')))"

text \<open>
  \<^verbatim>\<open>time.Parse(datetimeSuffixLayout, value)\<close>. The layout chunks are the long year (four
  characters, all digits), the zero-padded month (two digits, 1 to 12), the zero-padded day
  (two digits), and the hour (one or two digits, below 24); text left over is an error, and
  so is a day outside the month. The result is in UTC; \<^verbatim>\<open>None\<close> is a parse error.
\<close>

definition ParseDatetimeSuffix :: "string \<Rightarrow> gotime option" where
  "ParseDatetimeSuffix v =
     (if length v < 4 \<or> \<not> list_all isDigit (take 4 v) then None
      else
        let year = digitVal (v ! 0) * 1000 + digitVal (v ! 1) * 100 +
                   digitVal (v ! 2) * 10 + digitVal (v ! 3)
        in (case getnum (drop 4 v) True of
              None \<Rightarrow> None
            | Some (month, v1) \<Rightarrow>
                if month \<le> 0 \<or> 12 < month then None
                else (case getnum v1 True of
                        None \<Rightarrow> None
                      | Some (day, v2) \<Rightarrow>
                          (case getnum v2 False of
                             None \<Rightarrow> None
                           | Some (hour, v3) \<Rightarrow>
                               if hour < 0 \<or> 24 \<le> hour then None
                               else if v3 \<noteq> [] then None
                               else if day < 1 \<or> daysIn month year < day then None
                               else Some (DateUTC year month day hour)))))"

text \<open>
  \<^verbatim>\<open>appendInt(b, x, width)\<close> of package time: the decimal digits of \<^verbatim>\<open>x\<close>, padded
  with zeros on the left to \<^verbatim>\<open>width\<close>, after a minus sign when \<^verbatim>\<open>x\<close> is negative.
\<close>

fun decimal :: "nat \<Rightarrow> string" where
  "decimal n = (if n < 10 then [digitChar n] else decimal (n div 10) @ [digitChar n])"

declare decimal.simps [simp del]

definition appendInt :: "int \<Rightarrow> nat \<Rightarrow> string" where
  "appendInt x width =
     (let ds = decimal (nat \<bar>x\<bar>)
      in (if x < 0 then ''-'' else []) @ replicate (width - length ds) CHR ''0'' @ ds)"

text \<open>\<^verbatim>\<open>t.Format(datetimeSuffixLayout)\<close>: the wall clock of \<^verbatim>\<open>t\<close> in its location.\<close>

definition FormatDatetimeSuffix :: "gotime \<Rightarrow> string" where
  "FormatDatetimeSuffix t =
     (case civilFromDays (wallDay t) of
        (y, m, d) \<Rightarrow> appendInt y 4 @ appendInt m 2 @ appendInt d 2 @ appendInt (Hour t) 2)"

text \<open>
  \<^verbatim>\<open>time.Duration(keepHours) * time.Hour\<close>: a \<^verbatim>\<open>Duration\<close> is an \<^verbatim>\<open>int64\<close> of
  nanoseconds and the product wraps around.
\<close>

definition hoursDuration :: "int \<Rightarrow> int" where
  "hoursDuration keep = sint ((word_of_int keep :: 64 word) * word_of_int nanosPerHour)"

section \<open>Severity levels\<close>

type_synonym Level = int

definition Debug :: Level where "Debug = 0"
definition Info :: Level where "Info = 1"
definition Warning :: Level where "Warning = 2"
definition Error :: Level where "Error = 3"
definition Fatal :: Level where "Fatal = 4"

definition levelCount :: int where "levelCount = 5"

definition levelMin :: Level where "levelMin = Debug"
definition levelMax :: Level where "levelMax = Fatal"

definition levelNames :: "Level \<Rightarrow> string option" where
  "levelNames l =
     (if l = Debug then Some ''DEBUG''
      else if l = Info then Some ''INFO''
      else if l = Warning then Some ''WARNING''
      else if l = Error then Some ''ERROR''
      else if l = Fatal then Some ''FATAL''
      else None)"

text \<open>Indexing a Go map at a key it does not hold gives the zero value, here the empty string.\<close>

definition levelName :: "Level \<Rightarrow> string" where
  "levelName l = (case levelNames l of Some n \<Rightarrow> n | None \<Rightarrow> [])"

text \<open>
  The levels visited by \<^verbatim>\<open>for i := levelMin; i <= levelMax; i++\<close>, and equally by
  \<^verbatim>\<open>for i := 0; i < int(levelCount); i++\<close>, as indices into the writer array.
\<close>

definition levelRange :: "nat list" where
  "levelRange = map nat [levelMin..levelMax]"

definition logFileSuffix :: string where
  "logFileSuffix = ''.log''"

definition defaultBufferSize :: nat where
  "defaultBufferSize = 256 * 1024"

definition defaultFlushInterval :: int where
  "defaultFlushInterval = 3 * nanosPerSecond"

section \<open>The pattern of rotated file names\<close>

text \<open>
  \<^verbatim>\<open>init\<close> compiles \<^verbatim>\<open>(DEBUG|INFO|WARNING|ERROR|FATAL)\.log\.20[0-9]{8}\<close>, the names
  joined in the iteration order of the map. No level name is a prefix of another, so at any
  position at most one alternative matches and the order does not matter.
\<close>

definition patternNames :: "string list" where
  "patternNames = map levelName [levelMin..levelMax]"

definition matchNameAt :: "string \<Rightarrow> string \<Rightarrow> string option" where
  "matchNameAt n s =
     (let k = length n + 7
      in if take k s = n @ ''.log.20'' \<and> length (drop k s) \<ge> 8 \<and>
            list_all isDigit (take 8 (drop k s))
         then Some (take (k + 8) s) else None)"

definition matchAt :: "string \<Rightarrow> string option" where
  "matchAt s =
     (case List.map_filter (\<lambda>n. matchNameAt n s) patternNames of
        [] \<Rightarrow> None
      | m # _ \<Rightarrow> Some m)"

text \<open>
  \<^verbatim>\<open>rotatedFilenamePattern.FindString(s)\<close>: the leftmost match, or the empty string when
  there is none.
\<close>

fun FindString :: "string \<Rightarrow> string" where
  "FindString [] = []"
| "FindString (c # cs) =
     (case matchAt (c # cs) of Some m \<Rightarrow> m | None \<Rightarrow> FindString cs)"

text \<open>\<^verbatim>\<open>strings.Split(s, sep)\<close> for a separator of one character.\<close>

fun Split :: "string \<Rightarrow> char \<Rightarrow> string list" where
  "Split [] sep = [[]]"
| "Split (c # cs) sep =
     (if c = sep then [] # Split cs sep
      else (case Split cs sep of [] \<Rightarrow> [[c]] | p # ps \<Rightarrow> (c # p) # ps))"

section \<open>The environment: files, clock, diagnostic stream\<close>

text \<open>
  The file system is a table of directory entries (path to inode number) and a store of
  inodes; an open \<^verbatim>\<open>*os.File\<close> is the number of its inode, so a handle follows its file
  through a rename and survives its removal. An inode holds the bytes handed to the
  operating system and the bytes a \<^verbatim>\<open>Sync\<close> has forced to stable storage. Failures of
  system calls are decided by the environment: \<^verbatim>\<open>pathFault\<close> says which call fails on
  which path, with an error other than "does not exist", and \<^verbatim>\<open>ioFault\<close> which
  operation fails on which open file. The clock is \<^verbatim>\<open>getNowTime\<close>; it stands still
  during one call of the backend. Paths are taken as cleaned, so that \<^verbatim>\<open>path.Join\<close> and
  \<^verbatim>\<open>filepath.Join\<close> put one slash between directory and name.
\<close>

datatype sysop = OpMkdirAll | OpStat | OpOpenFile | OpRename | OpRemove | OpReadDir

datatype ioop = IoWrite | IoSync | IoClose

datatype oserror = ErrNotExist | ErrOther

record inode =
  content :: string
  durable :: string

text \<open>One constructor for each \<^verbatim>\<open>fmt.Fprintf(os.Stderr, ...)\<close> of the source.\<close>

datatype diag =
    FlushFailed
  | SyncFailed
  | WriteFileFailed
  | ReadDirFailed string
  | RemoveFailed string
  | StatFailed string
  | OpenFailed string
  | CloseFailed
  | ParseFailed string
  | InvalidLevel int string

text \<open>
  What a call of the backend does is recorded in order: acquiring and releasing
  \<^verbatim>\<open>s.mutex\<close>, each write to the diagnostic stream, each call of \<^verbatim>\<open>syncBufio.flush\<close>
  and \<^verbatim>\<open>syncBufio.sync\<close> (by file), and each \<^verbatim>\<open>os.OpenFile\<close>, \<^verbatim>\<open>os.Rename\<close> and
  \<^verbatim>\<open>os.Remove\<close> (by path).
\<close>

datatype event =
    EvLock
  | EvUnlock
  | EvStderr diag
  | EvFlush nat
  | EvSync nat
  | EvOpen string
  | EvRename string string
  | EvRemove string

record world =
  dirents :: "(string \<times> nat) list"
  inodes :: "nat \<Rightarrow> inode"
  nextInode :: nat
  pathFault :: "sysop \<Rightarrow> string \<Rightarrow> bool"
  ioFault :: "ioop \<Rightarrow> nat \<Rightarrow> bool"
  now :: gotime
  trace :: "event list"

definition emit :: "event \<Rightarrow> world \<Rightarrow> world" where
  "emit e w = w\<lparr>trace := trace w @ [e]\<rparr>"

definition Join :: "string \<Rightarrow> string \<Rightarrow> string" where
  "Join d n = d @ ''/'' @ n"

definition os_MkdirAll :: "string \<Rightarrow> world \<Rightarrow> oserror option" where
  "os_MkdirAll d w = (if pathFault w OpMkdirAll d then Some ErrOther else None)"

definition os_Stat :: "string \<Rightarrow> world \<Rightarrow> oserror option" where
  "os_Stat p w =
     (if pathFault w OpStat p then Some ErrOther
      else if map_of (dirents w) p = None then Some ErrNotExist
      else None)"

text \<open>\<^verbatim>\<open>os.OpenFile(p, os.O_APPEND|os.O_CREATE|os.O_WRONLY, 0644)\<close>\<close>

definition os_OpenFile :: "string \<Rightarrow> world \<Rightarrow> (oserror + nat) \<times> world" where
  "os_OpenFile p w0 =
     (let w = emit (EvOpen p) w0
      in if pathFault w OpOpenFile p then (Inl ErrOther, w)
         else (case map_of (dirents w) p of
                 Some i \<Rightarrow> (Inr i, w)
               | None \<Rightarrow>
                   (Inr (nextInode w),
                    w\<lparr>dirents := AList.update p (nextInode w) (dirents w),
                      inodes := (inodes w)(nextInode w := \<lparr>content = [], durable = []\<rparr>),
                      nextInode := Suc (nextInode w)\<rparr>)))"

definition os_Rename :: "string \<Rightarrow> string \<Rightarrow> world \<Rightarrow> oserror option \<times> world" where
  "os_Rename old new w0 =
     (let w = emit (EvRename old new) w0
      in if pathFault w OpRename old \<or> pathFault w OpRename new then (Some ErrOther, w)
         else (case map_of (dirents w) old of
                 None \<Rightarrow> (Some ErrNotExist, w)
               | Some i \<Rightarrow>
                   (None, w\<lparr>dirents := AList.update new i (AList.delete old (dirents w))\<rparr>)))"

definition os_Remove :: "string \<Rightarrow> world \<Rightarrow> oserror option \<times> world" where
  "os_Remove p w0 =
     (let w = emit (EvRemove p) w0
      in if pathFault w OpRemove p then (Some ErrOther, w)
         else if map_of (dirents w) p = None then (Some ErrNotExist, w)
         else (None, w\<lparr>dirents := AList.delete p (dirents w)\<rparr>))"

text \<open>
  \<^verbatim>\<open>ioutil.ReadDir(d)\<close>: the names of the entries directly in \<^verbatim>\<open>d\<close>, sorted by name.
\<close>

definition entryNames :: "string \<Rightarrow> world \<Rightarrow> string list" where
  "entryNames d w =
     [drop (length d + 1) p. p \<leftarrow> map fst (dirents w),
        take (length d + 1) p = d @ ''/'',
        drop (length d + 1) p \<noteq> [],
        CHR ''/'' \<notin> set (drop (length d + 1) p)]"

definition ioutil_ReadDir :: "string \<Rightarrow> world \<Rightarrow> oserror + string list" where
  "ioutil_ReadDir d w =
     (if pathFault w OpReadDir d then Inl ErrOther else Inr (sort (remdups (entryNames d w))))"

text \<open>
  \<^verbatim>\<open>(*os.File).Write\<close>, \<^verbatim>\<open>Sync\<close> and \<^verbatim>\<open>Close\<close> on the file of inode \<^verbatim>\<open>h\<close>. A write
  that fails writes nothing; the flag returned is "the error is not nil".
\<close>

definition file_Write :: "nat \<Rightarrow> string \<Rightarrow> world \<Rightarrow> (nat \<times> bool) \<times> world" where
  "file_Write h bs w =
     (if ioFault w IoWrite h then ((0, True), w)
      else ((length bs, False),
            w\<lparr>inodes := (inodes w)(h := (inodes w h)\<lparr>content := content (inodes w h) @ bs\<rparr>)\<rparr>))"

definition file_Sync :: "nat \<Rightarrow> world \<Rightarrow> bool \<times> world" where
  "file_Sync h w =
     (if ioFault w IoSync h then (True, w)
      else (False, w\<lparr>inodes := (inodes w)(h := (inodes w h)\<lparr>durable := content (inodes w h)\<rparr>)\<rparr>))"

definition file_Close :: "nat \<Rightarrow> world \<Rightarrow> bool \<times> world" where
  "file_Close h w = (ioFault w IoClose h, w)"

section \<open>syncBufio: the buffered writer of one level\<close>

text \<open>
  \<^verbatim>\<open>type syncBufio struct { writer *bufio.Writer; file *os.File; writeSize uint64;
  filePath string }\<close> (the field \<^verbatim>\<open>file\<close> is \<^verbatim>\<open>osfile\<close> here). Of the \<^verbatim>\<open>bufio.Writer\<close> the record keeps the bytes buffered
  (\<^verbatim>\<open>buf\<close>) and whether its sticky error is set (\<^verbatim>\<open>werr\<close>); its capacity is
  \<^verbatim>\<open>defaultBufferSize\<close>.
\<close>

record syncBufio =
  buf :: string
  werr :: bool
  osfile :: nat
  writeSize :: "64 word"
  filePath :: string

definition newSyncBufio :: "nat \<Rightarrow> string \<Rightarrow> syncBufio" where
  "newSyncBufio f path = \<lparr>buf = [], werr = False, osfile = f, writeSize = 0, filePath = path\<rparr>"

text \<open>
  \<^verbatim>\<open>(*bufio.Writer).Flush\<close>: nothing when the sticky error is set or the buffer is empty;
  otherwise the buffer is written to the file, and a failure sets the sticky error and
  keeps the bytes.
\<close>

definition bufio_Flush :: "syncBufio \<Rightarrow> world \<Rightarrow> bool \<times> syncBufio \<times> world" where
  "bufio_Flush sb w =
     (if werr sb then (True, sb, w)
      else if buf sb = [] then (False, sb, w)
      else (case file_Write (osfile sb) (buf sb) w of
              ((n, err), w') \<Rightarrow>
                if err then (True, sb\<lparr>werr := True\<rparr>, w') else (False, sb\<lparr>buf := []\<rparr>, w')))"

text \<open>
  \<^verbatim>\<open>(*bufio.Writer).Write(p)\<close>. While \<^verbatim>\<open>p\<close> is longer than the room left and no error is
  set, an empty buffer lets \<^verbatim>\<open>p\<close> go to the file directly and a non-empty one is filled
  up and flushed; what remains is copied into the buffer. One round of that loop is
  \<^verbatim>\<open>bufio_Write_round\<close> (on the bytes counted so far, the bytes left, the writer and the
  world); after two rounds the loop condition is false, so the loop is two rounds.
\<close>

definition bufio_Write_round ::
  "nat \<times> string \<times> syncBufio \<times> world \<Rightarrow> nat \<times> string \<times> syncBufio \<times> world" where
  "bufio_Write_round x =
     (case x of
        (nn, p, sb, w) \<Rightarrow>
          if defaultBufferSize - length (buf sb) < length p \<and> \<not> werr sb then
            (if buf sb = [] then
               (case file_Write (osfile sb) p w of
                  ((n, err), w') \<Rightarrow> (nn + n, drop n p, sb\<lparr>werr := err\<rparr>, w'))
             else
               (let n = defaultBufferSize - length (buf sb)
                in (case bufio_Flush (sb\<lparr>buf := buf sb @ take n p\<rparr>) w of
                      (e, sb', w') \<Rightarrow> (nn + n, drop n p, sb', w'))))
          else x)"

definition bufio_Write :: "syncBufio \<Rightarrow> string \<Rightarrow> world \<Rightarrow> (nat \<times> bool) \<times> syncBufio \<times> world" where
  "bufio_Write sb p w =
     (case bufio_Write_round (bufio_Write_round (0, p, sb, w)) of
        (nn, p', sb', w') \<Rightarrow>
          if werr sb' then ((nn, True), sb', w')
          else ((nn + length p', False), sb'\<lparr>buf := buf sb' @ p'\<rparr>, w'))"

text \<open>\<^verbatim>\<open>func (s *syncBufio) flush() error { return s.writer.Flush() }\<close>\<close>

definition syncBufio_flush :: "syncBufio \<Rightarrow> world \<Rightarrow> bool \<times> syncBufio \<times> world" where
  "syncBufio_flush sb w = bufio_Flush sb (emit (EvFlush (osfile sb)) w)"

text \<open>\<^verbatim>\<open>func (s *syncBufio) sync() error { return s.file.Sync() }\<close>\<close>

definition syncBufio_sync :: "syncBufio \<Rightarrow> world \<Rightarrow> bool \<times> world" where
  "syncBufio_sync sb w = file_Sync (osfile sb) (emit (EvSync (osfile sb)) w)"

text \<open>
  \<^verbatim>\<open>func (s *syncBufio) close() error\<close>: flush and sync, each failure reported to the
  diagnostic stream, then the result of closing the file.
\<close>

definition syncBufio_close :: "syncBufio \<Rightarrow> world \<Rightarrow> bool \<times> world" where
  "syncBufio_close sb w =
     (case syncBufio_flush sb w of
        (e1, sb1, w1) \<Rightarrow>
          (case syncBufio_sync sb1 (if e1 then emit (EvStderr FlushFailed) w1 else w1) of
             (e2, w2) \<Rightarrow>
               file_Close (osfile sb1) (if e2 then emit (EvStderr SyncFailed) w2 else w2)))"

text \<open>
  \<^verbatim>\<open>func (s *syncBufio) write(content []byte)\<close>: the error is reported, and the count of
  bytes accepted is added to \<^verbatim>\<open>writeSize\<close>, a \<^verbatim>\<open>uint64\<close>.
\<close>

definition syncBufio_write :: "syncBufio \<Rightarrow> string \<Rightarrow> world \<Rightarrow> syncBufio \<times> world" where
  "syncBufio_write sb bs w =
     (case bufio_Write sb bs w of
        ((writeCount, err), sb', w') \<Rightarrow>
          (sb'\<lparr>writeSize := writeSize sb' + of_nat writeCount\<rparr>,
           if err then emit (EvStderr WriteFileFailed) w' else w'))"

section \<open>FileBackend\<close>

text \<open>
  \<^verbatim>\<open>writer [levelCount]*syncBufio\<close> is a table from the index to the writer the slot
  points to, \<^verbatim>\<open>None\<close> for \<^verbatim>\<open>nil\<close>; only the indices of \<^verbatim>\<open>levelRange\<close> are
  ever read or written. Calling a method that reads a field through a \<^verbatim>\<open>nil\<close> slot
  panics; an index outside a slice panics too.
\<close>

datatype panic = NilPointerDereference | IndexOutOfRange

datatype 'a result = Panic panic | Ok 'a

record FileBackend =
  dir :: string
  writer :: "nat \<Rightarrow> syncBufio option"
  flushInterval :: int
  rotateByHour :: bool
  lastRotateTime :: int
  keepHours :: int

text \<open>\<^verbatim>\<open>func (s *FileBackend) openSyncBufio(level Level, filepath string) error\<close>\<close>

definition openSyncBufio ::
  "nat \<Rightarrow> string \<Rightarrow> FileBackend \<Rightarrow> world \<Rightarrow> oserror option \<times> FileBackend \<times> world" where
  "openSyncBufio level filepath s w =
     (case os_OpenFile filepath w of
        (Inl err, w') \<Rightarrow> (Some err, s, w')
      | (Inr f, w') \<Rightarrow> (None, s\<lparr>writer := (writer s)(level := Some (newSyncBufio f filepath))\<rparr>, w'))"

text \<open>
  \<^verbatim>\<open>NewFileBackend\<close>, up to the start of the three background loops (when they run is
  the scheduler's business; each of their ticks is one call of \<^verbatim>\<open>Flush\<close>,
  \<^verbatim>\<open>doMonitorFiles\<close> or \<^verbatim>\<open>doRotateByHour\<close>).
\<close>

fun openLevels ::
  "nat list \<Rightarrow> FileBackend \<Rightarrow> world \<Rightarrow> oserror option \<times> FileBackend \<times> world" where
  "openLevels [] s w = (None, s, w)"
| "openLevels (i # rest) s w =
     (case openSyncBufio i (Join (dir s) (levelName (int i) @ logFileSuffix)) s w of
        (Some err, s', w') \<Rightarrow> (Some err, s', w')
      | (None, s', w') \<Rightarrow> openLevels rest s' w')"

definition NewFileBackend :: "string \<Rightarrow> world \<Rightarrow> (oserror + FileBackend) \<times> world" where
  "NewFileBackend d w =
     (case os_MkdirAll d w of
        Some err \<Rightarrow> (Inl err, w)
      | None \<Rightarrow>
          (case openLevels levelRange
                  \<lparr>dir = d, writer = (\<lambda>i. None), flushInterval = defaultFlushInterval,
                   rotateByHour = False, lastRotateTime = 0, keepHours = 0\<rparr> w of
             (Some err, s, w') \<Rightarrow> (Inl err, w')
           | (None, s, w') \<Rightarrow> (Inr s, w')))"

definition SetRotateFile :: "bool \<Rightarrow> int \<Rightarrow> FileBackend \<Rightarrow> world \<Rightarrow> FileBackend" where
  "SetRotateFile byHour keep s w =
     (if byHour
      then s\<lparr>rotateByHour := byHour, keepHours := keep,
             lastRotateTime := Unix (truncateToHour (now w))\<rparr>
      else s\<lparr>rotateByHour := byHour, lastRotateTime := 0\<rparr>)"

definition SetFlushInterval :: "int \<Rightarrow> FileBackend \<Rightarrow> FileBackend" where
  "SetFlushInterval t s = s\<lparr>flushInterval := t\<rparr>"

text \<open>
  \<^verbatim>\<open>func (s *FileBackend) shouldDelete(name string, keepHours int) bool\<close>. The third
  element of the split is read without a length check.
\<close>

definition shouldDelete :: "FileBackend \<Rightarrow> string \<Rightarrow> int \<Rightarrow> world \<Rightarrow> (bool \<times> world) result" where
  "shouldDelete s name keep w =
     (let parts = Split name CHR ''.''
      in if length parts \<le> 2 then Panic IndexOutOfRange
         else (case ParseDatetimeSuffix (parts ! 2) of
                 None \<Rightarrow> Ok (False, emit (EvStderr (ParseFailed name)) w)
               | Some fileTime \<Rightarrow>
                   Ok (\<not> After (Add fileTime (hoursDuration keep)) (truncateToHour (now w)), w)))"

text \<open>
  \<^verbatim>\<open>doRotateByHour\<close>, first loop: every level's file is renamed; the result of
  \<^verbatim>\<open>os.Rename\<close> is dropped.
\<close>

fun rotateFiles :: "nat list \<Rightarrow> gotime \<Rightarrow> FileBackend \<Rightarrow> world \<Rightarrow> world result" where
  "rotateFiles [] rotateTime s w = Ok w"
| "rotateFiles (i # rest) rotateTime s w =
     (case writer s i of
        None \<Rightarrow> Panic NilPointerDereference
      | Some sb \<Rightarrow>
          rotateFiles rest rotateTime s
            (snd (os_Rename (filePath sb)
                    (filePath sb @ ''.'' @ FormatDatetimeSuffix rotateTime) w)))"

text \<open>\<^verbatim>\<open>doRotateByHour\<close>, second loop, over the entries read from the directory.\<close>

fun removeFiles :: "string list \<Rightarrow> FileBackend \<Rightarrow> world \<Rightarrow> world result" where
  "removeFiles [] s w = Ok w"
| "removeFiles (name # names) s w =
     (if name = FindString name then
        (case shouldDelete s name (keepHours s) w of
           Panic p \<Rightarrow> Panic p
         | Ok (del, w1) \<Rightarrow>
             if del then
               (case os_Remove (Join (dir s) name) w1 of
                  (Some err, w2) \<Rightarrow>
                    removeFiles names s (emit (EvStderr (RemoveFailed (Join (dir s) name))) w2)
                | (None, w2) \<Rightarrow> removeFiles names s w2)
             else removeFiles names s w1)
      else removeFiles names s w)"

text \<open>\<^verbatim>\<open>doRotateByHour\<close> from the comment \<^verbatim>\<open>// remove old files\<close> on: the retention sweep.\<close>

definition removeOldFiles :: "FileBackend \<Rightarrow> world \<Rightarrow> world result" where
  "removeOldFiles s w =
     (if keepHours s \<le> 0 then Ok w
      else (case ioutil_ReadDir (dir s) w of
              Inl err \<Rightarrow> Ok (emit (EvStderr (ReadDirFailed (dir s))) w)
            | Inr files \<Rightarrow> removeFiles files s w))"

text \<open>
  \<^verbatim>\<open>func (s *FileBackend) doRotateByHour()\<close>. The source computes
  \<^verbatim>\<open>ru := rotateTime.Unix()\<close> and discards it; no field of the backend is assigned.
\<close>

definition doRotateByHour :: "FileBackend \<Rightarrow> world \<Rightarrow> (FileBackend \<times> world) result" where
  "doRotateByHour s w =
     (if \<not> rotateByHour s then Ok (s, w)
      else
        let rotateTime = truncateToHour (now w)
        in (case (if lastRotateTime s < Unix rotateTime
                  then rotateFiles levelRange rotateTime s w else Ok w) of
              Panic p \<Rightarrow> Panic p
            | Ok w1 \<Rightarrow>
                (case removeOldFiles s w1 of
                   Panic p \<Rightarrow> Panic p
                 | Ok w2 \<Rightarrow> Ok (s, w2))))"

text \<open>
  \<^verbatim>\<open>lockerWrapper\<close> of \<^verbatim>\<open>doMonitorFiles\<close>: \<^verbatim>\<open>openSyncBufio\<close> between
  \<^verbatim>\<open>s.mutex.Lock()\<close> and the deferred \<^verbatim>\<open>s.mutex.Unlock()\<close>.
\<close>

definition lockerWrapper ::
  "nat \<Rightarrow> string \<Rightarrow> FileBackend \<Rightarrow> world \<Rightarrow> oserror option \<times> FileBackend \<times> world" where
  "lockerWrapper level filepath s w =
     (case openSyncBufio level filepath s (emit EvLock w) of
        (err, s', w') \<Rightarrow> (err, s', emit EvUnlock w'))"

text \<open>
  \<^verbatim>\<open>func (s *FileBackend) doMonitorFiles()\<close>: the loop over the levels. A \<^verbatim>\<open>nil\<close>
  slot is \<^verbatim>\<open>continue\<close>; a file that exists, a failed \<^verbatim>\<open>Stat\<close> and a failed open are
  each \<^verbatim>\<open>return\<close>.
\<close>

fun monitorFiles :: "nat list \<Rightarrow> FileBackend \<Rightarrow> world \<Rightarrow> FileBackend \<times> world" where
  "monitorFiles [] s w = (s, w)"
| "monitorFiles (i # rest) s w =
     (case writer s i of
        None \<Rightarrow> monitorFiles rest s w
      | Some wr \<Rightarrow>
          (case os_Stat (filePath wr) w of
             None \<Rightarrow> (s, w)
           | Some err \<Rightarrow>
               if err \<noteq> ErrNotExist then (s, emit (EvStderr (StatFailed (filePath wr))) w)
               else (case lockerWrapper i (filePath wr) s w of
                       (Some e, s', w') \<Rightarrow> (s', emit (EvStderr (OpenFailed (filePath wr))) w')
                     | (None, s', w') \<Rightarrow> monitorFiles rest s' (snd (syncBufio_close wr w')))))"

definition doMonitorFiles :: "FileBackend \<Rightarrow> world \<Rightarrow> FileBackend \<times> world" where
  "doMonitorFiles s w = monitorFiles levelRange s w"

text \<open>\<^verbatim>\<open>func (s *FileBackend) flush()\<close>: the results of flush and sync are dropped.\<close>

fun flushLevels :: "nat list \<Rightarrow> FileBackend \<Rightarrow> world \<Rightarrow> FileBackend \<times> world" where
  "flushLevels [] s w = (s, w)"
| "flushLevels (i # rest) s w =
     (case writer s i of
        None \<Rightarrow> flushLevels rest s w
      | Some sb \<Rightarrow>
          (case syncBufio_flush sb w of
             (e1, sb1, w1) \<Rightarrow>
               flushLevels rest (s\<lparr>writer := (writer s)(i := Some sb1)\<rparr>)
                 (snd (syncBufio_sync sb1 w1))))"

definition FileBackend_flush :: "FileBackend \<Rightarrow> world \<Rightarrow> FileBackend \<times> world" where
  "FileBackend_flush s w = flushLevels levelRange s w"

definition Flush :: "FileBackend \<Rightarrow> world \<Rightarrow> FileBackend \<times> world" where
  "Flush s w =
     (case FileBackend_flush s (emit EvLock w) of (s', w') \<Rightarrow> (s', emit EvUnlock w'))"

text \<open>\<^verbatim>\<open>func (s *FileBackend) close()\<close>: no check of the slot before \<^verbatim>\<open>close\<close> is called on it.\<close>

fun closeLevels :: "nat list \<Rightarrow> FileBackend \<Rightarrow> world \<Rightarrow> (FileBackend \<times> world) result" where
  "closeLevels [] s w = Ok (s, w)"
| "closeLevels (i # rest) s w =
     (case writer s i of
        None \<Rightarrow> Panic NilPointerDereference
      | Some sb \<Rightarrow>
          (case syncBufio_close sb w of
             (err, w') \<Rightarrow>
               closeLevels rest (s\<lparr>writer := (writer s)(i := None)\<rparr>)
                 (if err then emit (EvStderr CloseFailed) w' else w')))"

definition FileBackend_close :: "FileBackend \<Rightarrow> world \<Rightarrow> (FileBackend \<times> world) result" where
  "FileBackend_close s w = closeLevels levelRange s w"

definition Close :: "FileBackend \<Rightarrow> world \<Rightarrow> (FileBackend \<times> world) result" where
  "Close s w =
     (case FileBackend_close s (emit EvLock w) of
        Panic p \<Rightarrow> Panic p
      | Ok (s', w') \<Rightarrow> Ok (s', emit EvUnlock w'))"

text \<open>\<^verbatim>\<open>func (s *FileBackend) Log(level Level, content []byte)\<close>\<close>

definition Log :: "FileBackend \<Rightarrow> Level \<Rightarrow> string \<Rightarrow> world \<Rightarrow> (FileBackend \<times> world) result" where
  "Log s level bs w =
     (case (if levelMin \<le> level \<and> level \<le> levelMax then
              (case writer s (nat level) of
                 None \<Rightarrow> Panic NilPointerDereference
               | Some sb \<Rightarrow>
                   (case syncBufio_write sb bs (emit EvLock w) of
                      (sb', w') \<Rightarrow> Ok (s\<lparr>writer := (writer s)(nat level := Some sb')\<rparr>, w')))
            else Ok (s, emit (EvStderr (InvalidLevel level bs)) (emit EvLock w))) of
        Panic p \<Rightarrow> Panic p
      | Ok (s1, w1) \<Rightarrow>
          (case (if level = Fatal then FileBackend_flush s1 w1 else (s1, w1)) of
             (s2, w2) \<Rightarrow> Ok (s2, emit EvUnlock w2)))"

section \<open>A concrete run\<close>

text \<open>
  An empty file system with no failing call, the clock at 2019-07-10 01:13:14 UTC, and the
  backend that \<^verbatim>\<open>NewFileBackend("log")\<close> builds there: five open files
  \<^verbatim>\<open>log/DEBUG.log\<close> to \<^verbatim>\<open>log/FATAL.log\<close>.
\<close>

definition emptyWorld :: world where
  "emptyWorld =
     \<lparr>dirents = [], inodes = (\<lambda>i. \<lparr>content = [], durable = []\<rparr>), nextInode = 0,
      pathFault = (\<lambda>call p. False), ioFault = (\<lambda>call h. False),
      now = \<lparr>unixNano = 1562721194000000000, zoneOffset = 0\<rparr>, trace = []\<rparr>"

definition startedBackend :: FileBackend where
  "startedBackend =
     (case fst (NewFileBackend ''log'' emptyWorld) of
        Inr s \<Rightarrow> s
      | Inl err \<Rightarrow> \<lparr>dir = [], writer = (\<lambda>i. None), flushInterval = 0, rotateByHour = False,
                    lastRotateTime = 0, keepHours = 0\<rparr>)"

definition startedWorld :: world where
  "startedWorld = snd (NewFileBackend ''log'' emptyWorld)"

definition isOk :: "'a result \<Rightarrow> bool" where
  "isOk r = (case r of Ok x \<Rightarrow> True | Panic p \<Rightarrow> False)"

text \<open>
  Rotation switched on with one hour of retention, and the clock one hour later; and the
  started world after \<^verbatim>\<open>log/INFO.log\<close> was removed from outside.
\<close>

definition rotatingBackend :: FileBackend where
  "rotatingBackend = SetRotateFile True 1 startedBackend startedWorld"

definition hourLaterWorld :: world where
  "hourLaterWorld = startedWorld\<lparr>now := Add (now startedWorld) nanosPerHour\<rparr>"

definition infoRemovedWorld :: world where
  "infoRemovedWorld = snd (os_Remove ''log/INFO.log'' startedWorld)"

definition isRename :: "event \<Rightarrow> bool" where
  "isRename e = (case e of EvRename a b \<Rightarrow> True | _ \<Rightarrow> False)"

section \<open>Retention: what the code deletes and what the specification says\<close>

text \<open>
  \<^verbatim>\<open>deletable\<close> is the answer of \<^verbatim>\<open>shouldDelete\<close> for a name whose third part
  parses, read off the source. \<^verbatim>\<open>specExpired\<close> is the condition in the words of the
  specification: \<^verbatim>\<open>keepHours > 0\<close>, and the parsed suffix time plus \<^verbatim>\<open>keepHours\<close>
  hours is at or before the current hour bucket.
\<close>

definition deletable :: "int \<Rightarrow> gotime \<Rightarrow> string \<Rightarrow> bool" where
  "deletable keep nowT name =
     (case ParseDatetimeSuffix (Split name CHR ''.'' ! 2) of
        None \<Rightarrow> False
      | Some fileTime \<Rightarrow> \<not> After (Add fileTime (hoursDuration keep)) (truncateToHour nowT))"

definition specExpired :: "int \<Rightarrow> gotime \<Rightarrow> string \<Rightarrow> bool" where
  "specExpired keep nowT name =
     (0 < keep \<and>
      (case ParseDatetimeSuffix (Split name CHR ''.'' ! 2) of
         None \<Rightarrow> False
       | Some fileTime \<Rightarrow>
           unixNano fileTime + keep * nanosPerHour \<le> unixNano (truncateToHour nowT)))"


text \<open>
  A backend asked to keep archives for 2562048 hours, and the started world with two
  archives of the Debug level, of the hour before the clock's and of the clock's hour.
\<close>

definition foreverBackend :: FileBackend where
  "foreverBackend = SetRotateFile True 2562048 startedBackend startedWorld"

definition twoArchivesWorld :: world where
  "twoArchivesWorld =
     snd (os_OpenFile ''log/DEBUG.log.2019071001''
            (snd (os_OpenFile ''log/DEBUG.log.2019071000'' startedWorld)))"


section \<open>Properties of truncateToHour\<close>









section \<open>Levels and slots\<close>

lemma levelRange_eq: "levelRange = [0, 1, 2, 3, 4]"
  by (simp add: levelRange_def levelMin_def levelMax_def Debug_def Fatal_def upto_rec1)

lemma nat_level_in_range: "levelMin \<le> l \<Longrightarrow> l \<le> levelMax \<Longrightarrow> nat l \<in> set levelRange"
  by (auto simp: levelRange_def)

lemma started_Close_isOk: "isOk (Close startedBackend startedWorld)"
  by code_simp

section \<open>After Close\<close>

lemma closeLevels_Ok:
  "closeLevels ls s w = Ok (s', w') \<Longrightarrow>
     s' = s\<lparr>writer := (\<lambda>i. if i \<in> set ls then None else writer s i)\<rparr>"
proof (induction ls arbitrary: s w)
  case Nil
  then show ?case by simp
next
  case (Cons i ls)
  from Cons.prems obtain sb where sb: "writer s i = Some sb"
    by (cases "writer s i") auto
  obtain err w1 where c: "syncBufio_close sb w = (err, w1)"
    by (cases "syncBufio_close sb w") auto
  from Cons.prems sb c
  have "closeLevels ls (s\<lparr>writer := (writer s)(i := None)\<rparr>)
          (if err then emit (EvStderr CloseFailed) w1 else w1) = Ok (s', w')"
    by simp
  from Cons.IH [OF this] show ?case
    by (simp add: fun_eq_iff)
qed

lemma Close_Ok:
  "Close s w = Ok (s', w') \<Longrightarrow>
     s' = s\<lparr>writer := (\<lambda>i. if i \<in> set levelRange then None else writer s i)\<rparr>"
  by (auto simp: Close_def FileBackend_close_def split: result.splits dest: closeLevels_Ok)

lemma Log_nil_slot:
  "levelMin \<le> l \<Longrightarrow> l \<le> levelMax \<Longrightarrow> writer s (nat l) = None \<Longrightarrow>
     Log s l bs w = Panic NilPointerDereference"
  by (simp add: Log_def)

lemma flushLevels_nil:
  "\<forall>i\<in>set ls. writer s i = None \<Longrightarrow> flushLevels ls s w = (s, w)"
  by (induction ls) auto

text \<open>
  C2 says that \<^verbatim>\<open>Log\<close> at a valid level after \<^verbatim>\<open>Close\<close> only writes a diagnostic and
  does not panic. The code does the opposite: \<^verbatim>\<open>Close\<close> leaves every slot \<^verbatim>\<open>nil\<close>,
  and \<^verbatim>\<open>Log\<close>, unlike \<^verbatim>\<open>flush\<close> and \<^verbatim>\<open>doMonitorFiles\<close>, calls
  \<^verbatim>\<open>s.writer[level].write\<close> without a check of the slot. For every backend on which
  \<^verbatim>\<open>Close\<close> returned, every valid level and every message, \<^verbatim>\<open>Log\<close> panics with a
  nil pointer dereference.
\<close>

theorem Log_after_Close_panics:
  assumes "Close s w = Ok (s', w')" and "levelMin \<le> level" and "level \<le> levelMax"
  shows "Log s' level bs w' = Panic NilPointerDereference"
proof -
  have "writer s' (nat level) = None"
    using Close_Ok [OF assms(1)] nat_level_in_range [OF assms(2,3)] by simp
  with assms(2,3) show ?thesis by (rule Log_nil_slot)
qed

theorem Log_after_Close_panics_witness:
  "levelMin \<le> Info \<and> Info \<le> levelMax \<and>
   (case Close startedBackend startedWorld of
      Ok (s', w') \<Rightarrow> Log s' Info ''hello'' w' = Panic NilPointerDereference
    | Panic p \<Rightarrow> False)"
proof -
  have lv: "levelMin \<le> Info" "Info \<le> levelMax"
    by (simp_all add: levelMin_def levelMax_def Info_def Debug_def Fatal_def)
  obtain s' w' where c: "Close startedBackend startedWorld = Ok (s', w')"
    using started_Close_isOk by (cases "Close startedBackend startedWorld") (auto simp: isOk_def)
  from Log_after_Close_panics [OF c lv] c lv show ?thesis by simp
qed

text \<open>
  C10: after \<^verbatim>\<open>Close\<close> has returned every slot of the level range is \<^verbatim>\<open>nil\<close>, and
  \<^verbatim>\<open>Flush\<close> (a call or a tick of the periodic flush) then returns without a panic, with
  the backend unchanged and the world unchanged but for the record that the lock was taken
  and released: the flush loop skips every \<^verbatim>\<open>nil\<close> slot.
\<close>

theorem Flush_after_Close_unchanged:
  assumes "Close s w = Ok (s', w')"
  shows "(\<forall>i\<in>set levelRange. writer s' i = None) \<and>
         Flush s' w' = (s', emit EvUnlock (emit EvLock w'))"
proof -
  have nil: "\<forall>i\<in>set levelRange. writer s' i = None"
    using Close_Ok [OF assms] by simp
  then show ?thesis
    by (simp add: Flush_def FileBackend_flush_def flushLevels_nil)
qed

theorem Flush_after_Close_unchanged_witness:
  "(case Close startedBackend startedWorld of
      Ok (s', w') \<Rightarrow>
        writer s' 0 = None \<and> writer s' 4 = None \<and>
        trace (snd (Flush s' w')) = trace w' @ [EvLock, EvUnlock] \<and>
        dirents (snd (Flush s' w')) = dirents w'
    | Panic p \<Rightarrow> False)"
proof -
  obtain s' w' where c: "Close startedBackend startedWorld = Ok (s', w')"
    using started_Close_isOk by (cases "Close startedBackend startedWorld") (auto simp: isOk_def)
  from Flush_after_Close_unchanged [OF c] c show ?thesis
    by (simp add: levelRange_eq emit_def)
qed

section \<open>The rotation tick and lastRotateTime\<close>

lemma rotating_two_ticks:
  "lastRotateTime rotatingBackend < Unix (truncateToHour (now hourLaterWorld)) \<and>
   (case doRotateByHour rotatingBackend hourLaterWorld of
      Panic p \<Rightarrow> False
    | Ok (s1, w1) \<Rightarrow>
        length (filter isRename (trace w1)) = 5 \<and>
        (case doMonitorFiles s1 w1 of
           (s2, w2) \<Rightarrow>
             (case doRotateByHour s2 w2 of
                Panic p \<Rightarrow> False
              | Ok (s3, w3) \<Rightarrow> length (filter isRename (trace w3)) = 10)))"
  by code_simp

text \<open>
  C1 says that a rotation tick whose hour bucket is after \<^verbatim>\<open>lastRotateTime\<close> renames
  the files and then sets \<^verbatim>\<open>lastRotateTime\<close> to the bucket, so that a second tick in the
  same hour renames nothing. The code never assigns the field: whenever
  \<^verbatim>\<open>doRotateByHour\<close> returns, the backend is the one it was called on. In the concrete
  run the first tick renames the five files, the monitor reopens them, and a second tick in
  the same hour renames the five new files onto the archives of the first.
\<close>

theorem doRotateByHour_keeps_lastRotateTime:
  assumes "doRotateByHour s w = Ok (s', w')"
  shows "s' = s"
  using assms by (auto simp: doRotateByHour_def Let_def split: if_splits result.splits)

theorem doRotateByHour_keeps_lastRotateTime_witness:
  "lastRotateTime rotatingBackend < Unix (truncateToHour (now hourLaterWorld)) \<and>
   (case doRotateByHour rotatingBackend hourLaterWorld of
      Panic p \<Rightarrow> False
    | Ok (s1, w1) \<Rightarrow>
        s1 = rotatingBackend \<and>
        length (filter isRename (trace w1)) = 5 \<and>
        (case doMonitorFiles s1 w1 of
           (s2, w2) \<Rightarrow>
             (case doRotateByHour s2 w2 of
                Panic p \<Rightarrow> False
              | Ok (s3, w3) \<Rightarrow> length (filter isRename (trace w3)) = 10)))"
proof -
  obtain s1 w1 where c: "doRotateByHour rotatingBackend hourLaterWorld = Ok (s1, w1)"
    using rotating_two_ticks
    by (cases "doRotateByHour rotatingBackend hourLaterWorld") auto
  from doRotateByHour_keeps_lastRotateTime [OF c] rotating_two_ticks c show ?thesis
    by simp
qed

section \<open>The monitor tick\<close>

lemma infoRemoved_facts:
  "writer startedBackend 0 = Some (newSyncBufio 0 ''log/DEBUG.log'') \<and>
   os_Stat (filePath (newSyncBufio 0 ''log/DEBUG.log'')) infoRemovedWorld = None \<and>
   writer startedBackend 1 = Some (newSyncBufio 1 ''log/INFO.log'') \<and>
   os_Stat ''log/INFO.log'' infoRemovedWorld = Some ErrNotExist"
  by code_simp

text \<open>
  C3 says that a level whose file exists is left alone and the remaining levels are still
  checked in the same tick. In the code a successful \<^verbatim>\<open>os.Stat\<close> is followed by
  \<^verbatim>\<open>return\<close>, not \<^verbatim>\<open>continue\<close>: when the Debug slot is open and its file exists,
  the tick ends there and no other level is looked at. In the concrete run
  \<^verbatim>\<open>log/INFO.log\<close> was removed and stays missing after the tick.
\<close>

theorem doMonitorFiles_returns_at_existing_file:
  assumes "writer s 0 = Some wr" and "os_Stat (filePath wr) w = None"
  shows "doMonitorFiles s w = (s, w)"
  using assms by (simp add: doMonitorFiles_def levelRange_eq)

theorem doMonitorFiles_returns_at_existing_file_witness:
  "writer startedBackend 0 = Some (newSyncBufio 0 ''log/DEBUG.log'') \<and>
   os_Stat (filePath (newSyncBufio 0 ''log/DEBUG.log'')) infoRemovedWorld = None \<and>
   writer startedBackend 1 = Some (newSyncBufio 1 ''log/INFO.log'') \<and>
   os_Stat ''log/INFO.log'' infoRemovedWorld = Some ErrNotExist \<and>
   os_Stat ''log/INFO.log'' (snd (doMonitorFiles startedBackend infoRemovedWorld)) =
     Some ErrNotExist"
  using infoRemoved_facts
    doMonitorFiles_returns_at_existing_file
      [of startedBackend "newSyncBufio 0 ''log/DEBUG.log''" infoRemovedWorld]
  by simp

section \<open>Names that match the archive pattern\<close>

lemma patternNames_eq: "patternNames = [''DEBUG'', ''INFO'', ''WARNING'', ''ERROR'', ''FATAL'']"
  by code_simp

lemma matchNameAt_length: "matchNameAt n s = Some m \<Longrightarrow> length m \<le> length s"
  by (auto simp: matchNameAt_def Let_def split: if_splits)

lemma matchAt_Some:
  "matchAt s = Some m \<Longrightarrow> \<exists>n\<in>set patternNames. matchNameAt n s = Some m"
proof -
  assume a: "matchAt s = Some m"
  then have "m \<in> set (List.map_filter (\<lambda>n. matchNameAt n s) patternNames)"
    by (auto simp: matchAt_def split: list.splits)
  then show ?thesis
    by (auto simp: List.map_filter_def)
qed

lemma FindString_length: "length (FindString s) \<le> length s"
proof (induction s)
  case Nil
  then show ?case by simp
next
  case (Cons c cs)
  show ?case
  proof (cases "matchAt (c # cs)")
    case None
    with Cons show ?thesis by simp
  next
    case (Some m)
    then obtain n where "matchNameAt n (c # cs) = Some m"
      using matchAt_Some by blast
    then have "length m \<le> length (c # cs)" by (rule matchNameAt_length)
    with Some show ?thesis by simp
  qed
qed

lemma FindString_self_matchAt:
  assumes "name \<noteq> []" and "name = FindString name"
  shows "matchAt name = Some name"
proof -
  obtain c cs where n: "name = c # cs" using assms(1) by (cases name) auto
  show ?thesis
  proof (cases "matchAt (c # cs)")
    case None
    then have "FindString (c # cs) = FindString cs" by simp
    with assms(2) n have "c # cs = FindString cs" by simp
    then have "length (c # cs) = length (FindString cs)" by (rule arg_cong)
    with FindString_length [of cs] show ?thesis by simp
  next
    case (Some m)
    with assms(2) n show ?thesis by simp
  qed
qed

lemma matchNameAt_self:
  assumes "matchNameAt n s = Some s"
  shows "\<exists>ds. s = n @ ''.log.20'' @ ds \<and> length ds = 8 \<and> list_all isDigit ds"
proof -
  let ?k = "length n + 7"
  from assms have p: "take ?k s = n @ ''.log.20''" and l: "8 \<le> length (drop ?k s)"
    and d: "list_all isDigit (take 8 (drop ?k s))" and t: "take (?k + 8) s = s"
    by (auto simp: matchNameAt_def Let_def split: if_splits)
  have "length (take (?k + 8) s) \<le> ?k + 8" by simp
  with t have "length s \<le> ?k + 8" by simp
  with l have l8: "length (drop ?k s) = 8" by simp
  then have "take 8 (drop ?k s) = drop ?k s" by simp
  with d have dd: "list_all isDigit (drop ?k s)" by simp
  have "take ?k s @ drop ?k s = s" by (rule append_take_drop_id)
  with p have e: "s = n @ ''.log.20'' @ drop ?k s" by simp
  show ?thesis
    by (rule exI [of _ "drop ?k s"]) (use e l8 dd in blast)
qed

lemma rotated_name_shape:
  assumes "name \<noteq> []" and "name = FindString name"
  shows "\<exists>n ds. n \<in> set patternNames \<and> name = n @ ''.log.20'' @ ds \<and> length ds = 8 \<and>
           list_all isDigit ds"
proof -
  from FindString_self_matchAt [OF assms] obtain n
    where n: "n \<in> set patternNames" and m: "matchNameAt n name = Some name"
    using matchAt_Some by blast
  from matchNameAt_self [OF m] n show ?thesis by blast
qed

lemma Split_no_sep: "sep \<notin> set s \<Longrightarrow> Split s sep = [s]"
  by (induction s) auto

lemma not_isDigit_dot: "\<not> isDigit CHR ''.''"
  by (simp add: isDigit_def)

lemma isDigit_not_dot: "list_all isDigit ds \<Longrightarrow> CHR ''.'' \<notin> set ds"
  using not_isDigit_dot by (metis list_all_iff)

lemma Split_append_sep:
  "sep \<notin> set a \<Longrightarrow> Split (a @ sep # b) sep = a # Split b sep"
  by (induction a) auto

lemma patternNames_no_dot: "n \<in> set patternNames \<Longrightarrow> CHR ''.'' \<notin> set n"
  by (auto simp: patternNames_eq)

lemma Split_rotated:
  assumes "n \<in> set patternNames" and "list_all isDigit ds"
  shows "Split (n @ ''.log.20'' @ ds) CHR ''.'' = [n, ''log'', ''20'' @ ds]"
proof -
  have d: "CHR ''.'' \<notin> set (''20'' @ ds)"
    using isDigit_not_dot [OF assms(2)] by simp
  have l: "CHR ''.'' \<notin> set ''log''" by simp
  have "n @ ''.log.20'' @ ds = n @ CHR ''.'' # (''log'' @ CHR ''.'' # (''20'' @ ds))"
    by simp
  then have "Split (n @ ''.log.20'' @ ds) CHR ''.'' =
             n # Split (''log'' @ CHR ''.'' # (''20'' @ ds)) CHR ''.''"
    using Split_append_sep [OF patternNames_no_dot [OF assms(1)]] by metis
  also have "Split (''log'' @ CHR ''.'' # (''20'' @ ds)) CHR ''.'' =
             ''log'' # Split (''20'' @ ds) CHR ''.''"
    by (rule Split_append_sep [OF l])
  also have "Split (''20'' @ ds) CHR ''.'' = [''20'' @ ds]"
    by (rule Split_no_sep [OF d])
  finally show ?thesis .
qed

lemma rotated_name_Split:
  assumes "name \<noteq> []" and "name = FindString name"
  shows "\<exists>n ds. n \<in> set patternNames \<and> length ds = 8 \<and> list_all isDigit ds \<and>
           name = n @ ''.log.20'' @ ds \<and> Split name CHR ''.'' = [n, ''log'', ''20'' @ ds]"
proof -
  from rotated_name_shape [OF assms] obtain n ds
    where n: "n \<in> set patternNames" and e: "name = n @ ''.log.20'' @ ds"
      and l: "length ds = 8" and d: "list_all isDigit ds"
    by blast
  from Split_rotated [OF n d] e have "Split name CHR ''.'' = [n, ''log'', ''20'' @ ds]"
    by simp
  with n e l d show ?thesis by blast
qed

section \<open>The retention sweep\<close>

lemma sint_word64:
  "- (2 ^ 63) \<le> x \<Longrightarrow> x < 2 ^ 63 \<Longrightarrow> sint (word_of_int x :: 64 word) = x"
  by (simp add: sint_sbintrunc' signed_take_bit_int_eq_self)

lemma hoursDuration_small:
  assumes "0 < k" and "k \<le> 2562047"
  shows "hoursDuration k = k * nanosPerHour"
proof -
  have a: "- (2 ^ 63) \<le> k * nanosPerHour"
    using assms by (simp add: nanosPerHour_def nanosPerSecond_def)
  have "k * 3600000000000 \<le> 2562047 * 3600000000000"
    using assms by simp
  then have b: "k * nanosPerHour < 2 ^ 63"
    by (simp add: nanosPerHour_def nanosPerSecond_def)
  have "hoursDuration k = sint (word_of_int (k * nanosPerHour) :: 64 word)"
    unfolding hoursDuration_def by (subst of_int_mult) (rule refl)
  also have "\<dots> = k * nanosPerHour"
    using a b by (rule sint_word64)
  finally show ?thesis .
qed

lemma deletable_specExpired:
  "0 < k \<Longrightarrow> k \<le> 2562047 \<Longrightarrow> deletable k t name = specExpired k t name"
  by (auto simp: deletable_def specExpired_def hoursDuration_small After_def Add_def
      split: option.splits)

lemma shouldDelete_rotated:
  assumes "name \<noteq> []" and "name = FindString name"
  shows "shouldDelete s name keep w =
           (case ParseDatetimeSuffix (Split name CHR ''.'' ! 2) of
              None \<Rightarrow> Ok (False, emit (EvStderr (ParseFailed name)) w)
            | Some fileTime \<Rightarrow> Ok (deletable keep (now w) name, w))"
proof -
  from rotated_name_Split [OF assms] obtain n ds
    where "Split name CHR ''.'' = [n, ''log'', ''20'' @ ds]" by blast
  then show ?thesis
    by (simp add: shouldDelete_def deletable_def split: option.splits)
qed

text \<open>
  C9: for the name of a directory entry that matches the archive pattern and whose
  hour-bucket suffix does not parse, \<^verbatim>\<open>shouldDelete\<close> reports the parse error to the
  diagnostic stream and answers false, and the sweep goes on with the remaining entries
  without a call of \<^verbatim>\<open>os.Remove\<close> for it: a malformed suffix neither deletes the file
  nor ends the sweep.
\<close>

theorem unparsable_suffix_is_kept:
  assumes "name \<noteq> []" and "name = FindString name"
    and "ParseDatetimeSuffix (Split name CHR ''.'' ! 2) = None"
  shows "shouldDelete s name keep w = Ok (False, emit (EvStderr (ParseFailed name)) w) \<and>
         removeFiles (name # rest) s w =
           removeFiles rest s (emit (EvStderr (ParseFailed name)) w)"
proof -
  have sd: "shouldDelete s name keep' w = Ok (False, emit (EvStderr (ParseFailed name)) w)"
    for keep'
    using shouldDelete_rotated [OF assms(1,2)] assms(3) by simp
  from sd [of "keepHours s"] assms(2)
  have "removeFiles (name # rest) s w =
          removeFiles rest s (emit (EvStderr (ParseFailed name)) w)"
    by simp
  with sd [of keep] show ?thesis by simp
qed

lemma month13_facts:
  "''DEBUG.log.2019139900'' \<noteq> [] \<and>
   ''DEBUG.log.2019139900'' = FindString ''DEBUG.log.2019139900'' \<and>
   ParseDatetimeSuffix (Split ''DEBUG.log.2019139900'' CHR ''.'' ! 2) = None"
  by code_simp

theorem unparsable_suffix_is_kept_witness:
  "''DEBUG.log.2019139900'' \<noteq> [] \<and>
   ''DEBUG.log.2019139900'' = FindString ''DEBUG.log.2019139900'' \<and>
   ParseDatetimeSuffix (Split ''DEBUG.log.2019139900'' CHR ''.'' ! 2) = None \<and>
   shouldDelete rotatingBackend ''DEBUG.log.2019139900'' 1 hourLaterWorld =
     Ok (False, emit (EvStderr (ParseFailed ''DEBUG.log.2019139900'')) hourLaterWorld) \<and>
   removeFiles [''DEBUG.log.2019139900''] rotatingBackend hourLaterWorld =
     Ok (emit (EvStderr (ParseFailed ''DEBUG.log.2019139900'')) hourLaterWorld)"
proof -
  note f = month13_facts
  from f have a: "''DEBUG.log.2019139900'' \<noteq> []"
    and b: "''DEBUG.log.2019139900'' = FindString ''DEBUG.log.2019139900''"
    and c: "ParseDatetimeSuffix (Split ''DEBUG.log.2019139900'' CHR ''.'' ! 2) = None"
    by blast+
  from unparsable_suffix_is_kept [OF a b c, of rotatingBackend 1 hourLaterWorld "[]"] f
  show ?thesis by simp
qed

lemma emit_fields [simp]:
  "dirents (emit e w) = dirents w" "inodes (emit e w) = inodes w"
  "nextInode (emit e w) = nextInode w" "pathFault (emit e w) = pathFault w"
  "ioFault (emit e w) = ioFault w" "now (emit e w) = now w"
  "trace (emit e w) = trace w @ [e]"
  by (simp_all add: emit_def)

lemma shouldDelete_rotated_world:
  assumes "name \<noteq> []" and "name = FindString name"
  shows "\<exists>w1. shouldDelete s name keep w = Ok (deletable keep (now w) name, w1) \<and>
           dirents w1 = dirents w \<and> now w1 = now w \<and> pathFault w1 = pathFault w"
  using shouldDelete_rotated [OF assms, of s keep w]
  by (cases "ParseDatetimeSuffix (Split name CHR ''.'' ! 2)") (simp_all add: deletable_def)

lemma os_Remove_world:
  assumes "\<not> pathFault w OpRemove p"
  shows "\<exists>e w2. os_Remove p w = (e, w2) \<and> map_of (dirents w2) = (map_of (dirents w))(p := None) \<and>
           now w2 = now w \<and> pathFault w2 = pathFault w"
proof (cases "map_of (dirents w) p")
  case None
  then have "(map_of (dirents w))(p := None) = map_of (dirents w)"
    by (simp add: fun_upd_idem)
  with None assms show ?thesis
    by (simp add: os_Remove_def Let_def)
next
  case (Some i)
  with assms show ?thesis
    by (simp add: os_Remove_def Let_def delete_conv')
qed

lemma removeFiles_result:
  assumes "[] \<notin> set names" and "\<forall>p. \<not> pathFault w OpRemove p"
  shows "\<exists>w'. removeFiles names s w = Ok w' \<and> now w' = now w \<and> pathFault w' = pathFault w \<and>
           (\<forall>p. map_of (dirents w') p =
              (if \<exists>name\<in>set names. name = FindString name \<and>
                    deletable (keepHours s) (now w) name \<and> p = Join (dir s) name
               then None else map_of (dirents w) p))"
  using assms
proof (induction names arbitrary: w)
  case Nil
  then show ?case by simp
next
  case (Cons name names)
  from Cons.prems have ne: "name \<noteq> []" and rest: "[] \<notin> set names" by auto
  show ?case
  proof (cases "name = FindString name")
    case False
    from Cons.IH [OF rest Cons.prems(2)] False show ?thesis by auto
  next
    case True
    from shouldDelete_rotated_world [OF ne True, of s "keepHours s" w] obtain w1
      where sd: "shouldDelete s name (keepHours s) w =
                   Ok (deletable (keepHours s) (now w) name, w1)"
        and d1: "dirents w1 = dirents w" and n1: "now w1 = now w"
        and f1: "pathFault w1 = pathFault w"
      by blast
    show ?thesis
    proof (cases "deletable (keepHours s) (now w) name")
      case False
      have nf: "\<forall>p. \<not> pathFault w1 OpRemove p" using Cons.prems(2) f1 by simp
      from Cons.IH [OF rest nf] obtain w'
        where r: "removeFiles names s w1 = Ok w'" and n: "now w' = now w1"
          and f: "pathFault w' = pathFault w1"
          and d: "\<forall>p. map_of (dirents w') p =
              (if \<exists>name\<in>set names. name = FindString name \<and>
                    deletable (keepHours s) (now w1) name \<and> p = Join (dir s) name
               then None else map_of (dirents w1) p)"
        by blast
      have "removeFiles (name # names) s w = Ok w'"
        using True sd False r by simp
      with n f d n1 f1 d1 False show ?thesis by auto
    next
      case del: True
      let ?p = "Join (dir s) name"
      have "\<not> pathFault w1 OpRemove ?p" using Cons.prems(2) f1 by simp
      from os_Remove_world [OF this] obtain e w2
        where rm: "os_Remove ?p w1 = (e, w2)"
          and d2: "map_of (dirents w2) = (map_of (dirents w1))(?p := None)"
          and n2: "now w2 = now w1" and f2: "pathFault w2 = pathFault w1"
        by blast
      define w3 where "w3 = (case e of Some err \<Rightarrow> emit (EvStderr (RemoveFailed ?p)) w2
                              | None \<Rightarrow> w2)"
      have d3: "dirents w3 = dirents w2" and n3: "now w3 = now w2"
        and f3: "pathFault w3 = pathFault w2"
        by (simp_all add: w3_def split: option.splits)
      have step: "removeFiles (name # names) s w = removeFiles names s w3"
        using True sd del rm by (simp add: w3_def split: option.splits)
      have nf: "\<forall>p. \<not> pathFault w3 OpRemove p" using Cons.prems(2) f1 f2 f3 by simp
      from Cons.IH [OF rest nf] obtain w'
        where r: "removeFiles names s w3 = Ok w'" and n: "now w' = now w3"
          and f: "pathFault w' = pathFault w3"
          and d: "\<forall>p. map_of (dirents w') p =
              (if \<exists>name\<in>set names. name = FindString name \<and>
                    deletable (keepHours s) (now w3) name \<and> p = Join (dir s) name
               then None else map_of (dirents w3) p)"
        by blast
      have nw: "now w3 = now w" using n3 n2 n1 by simp
      have dw: "map_of (dirents w3) = (map_of (dirents w))(?p := None)"
        using d3 d2 d1 by simp
      have "\<forall>p. map_of (dirents w') p =
              (if \<exists>nm\<in>set (name # names). nm = FindString nm \<and>
                    deletable (keepHours s) (now w) nm \<and> p = Join (dir s) nm
               then None else map_of (dirents w) p)"
        using d True del by (auto simp: nw dw)
      with step r n f nw f3 f2 f1 show ?thesis by simp
    qed
  qed
qed

lemma Join_inject: "Join d a = Join d b \<Longrightarrow> a = b"
  by (simp add: Join_def)

lemma entryNames_mem:
  assumes "name \<in> set (entryNames d w)"
  shows "name \<noteq> [] \<and> map_of (dirents w) (Join d name) \<noteq> None"
proof -
  from assms obtain p where p: "p \<in> fst ` set (dirents w)"
    and t: "take (length d + 1) p = d @ ''/''" and n: "name = drop (length d + 1) p"
    and ne: "drop (length d + 1) p \<noteq> []"
    by (auto simp: entryNames_def)
  have "take (length d + 1) p @ drop (length d + 1) p = p" by (rule append_take_drop_id)
  with t n have "p = Join d name" by (simp add: Join_def)
  with p have "map_of (dirents w) (Join d name) \<noteq> None"
    by (simp add: map_of_eq_None_iff)
  with ne n show ?thesis by simp
qed

lemma ReadDir_names:
  "\<not> pathFault w OpReadDir d \<Longrightarrow>
     \<exists>names. ioutil_ReadDir d w = Inr names \<and> set names = set (entryNames d w)"
  by (simp add: ioutil_ReadDir_def)


lemma os_OpenFile_pathFault: "pathFault (snd (os_OpenFile p w)) = pathFault w"
  by (simp add: os_OpenFile_def Let_def split: option.splits)

lemma openSyncBufio_pathFault:
  "openSyncBufio l p s w = (e, s', w') \<Longrightarrow> pathFault w' = pathFault w"
  using os_OpenFile_pathFault [of p w]
  by (auto simp: openSyncBufio_def split: prod.splits sum.splits)

lemma openLevels_pathFault:
  "openLevels ls s w = (e, s', w') \<Longrightarrow> pathFault w' = pathFault w"
proof (induction ls arbitrary: s w)
  case Nil
  then show ?case by simp
next
  case (Cons i ls)
  obtain e1 s1 w1
    where o: "openSyncBufio i (Join (dir s) (levelName (int i) @ logFileSuffix)) s w = (e1, s1, w1)"
    by (cases "openSyncBufio i (Join (dir s) (levelName (int i) @ logFileSuffix)) s w") auto
  from openSyncBufio_pathFault [OF o] have f1: "pathFault w1 = pathFault w" .
  show ?case
  proof (cases e1)
    case None
    with Cons.prems o have "openLevels ls s1 w1 = (e, s', w')" by simp
    from Cons.IH [OF this] f1 show ?thesis by simp
  next
    case (Some err)
    with Cons.prems o f1 show ?thesis by simp
  qed
qed

lemma NewFileBackend_pathFault: "pathFault (snd (NewFileBackend d w)) = pathFault w"
  by (auto simp: NewFileBackend_def split: option.splits prod.splits dest: openLevels_pathFault)

lemma twoArchivesWorld_no_fault: "pathFault twoArchivesWorld call p = False"
  by (simp add: twoArchivesWorld_def os_OpenFile_pathFault startedWorld_def
      NewFileBackend_pathFault emptyWorld_def)

lemma twoArchives_facts:
  "keepHours rotatingBackend \<le> 2562047 \<and>
   ''DEBUG.log.2019071000'' \<in> set (entryNames (dir rotatingBackend) twoArchivesWorld) \<and>
   ''DEBUG.log.2019071000'' = FindString ''DEBUG.log.2019071000'' \<and>
   specExpired (keepHours rotatingBackend) (now twoArchivesWorld) ''DEBUG.log.2019071000'' \<and>
   ''DEBUG.log.2019071001'' \<in> set (entryNames (dir rotatingBackend) twoArchivesWorld) \<and>
   ''DEBUG.log.2019071001'' = FindString ''DEBUG.log.2019071001'' \<and>
   \<not> specExpired (keepHours rotatingBackend) (now twoArchivesWorld) ''DEBUG.log.2019071001''"
  by code_simp


text \<open>
  C6 as stated, for every \<^verbatim>\<open>keepHours\<close>, is refuted: \<^verbatim>\<open>time.Duration(keepHours) *
  time.Hour\<close> is an \<^verbatim>\<open>int64\<close> product, and for \<^verbatim>\<open>keepHours = 2562048\<close> it wraps to
  a negative duration. The archive of the clock's own hour is then deleted although its
  suffix time plus 2562048 hours is far after the current hour bucket.
\<close>

theorem retention_sweep_overflow_counterexample:
  "''DEBUG.log.2019071001'' \<in> set (entryNames (dir foreverBackend) twoArchivesWorld) \<and>
   ''DEBUG.log.2019071001'' = FindString ''DEBUG.log.2019071001'' \<and>
   0 < keepHours foreverBackend \<and>
   \<not> specExpired (keepHours foreverBackend) (now twoArchivesWorld) ''DEBUG.log.2019071001'' \<and>
   (case removeOldFiles foreverBackend twoArchivesWorld of
      Ok w' \<Rightarrow> map_of (dirents w') (Join (dir foreverBackend) ''DEBUG.log.2019071001'') = None
    | Panic p \<Rightarrow> False)"
  by code_simp

text \<open>
  C6 (amended): when \<^verbatim>\<open>keepHours\<close> is at most 2562047 (the hours that fit an
  \<^verbatim>\<open>int64\<close> of nanoseconds), the directory can be read and no removal fails, the sweep
  returns, and every directory entry whose name matches the archive pattern is gone
  afterwards if and only if \<^verbatim>\<open>keepHours > 0\<close> and its suffix parses to a time that, plus
  \<^verbatim>\<open>keepHours\<close> hours, is at or before the current hour bucket; when
  \<^verbatim>\<open>keepHours <= 0\<close> the sweep changes nothing.
\<close>

theorem retention_sweep_deletes_expired:
  assumes keep: "keepHours s \<le> 2562047"
    and rd: "\<not> pathFault w OpReadDir (dir s)"
    and rm: "\<forall>p. \<not> pathFault w OpRemove p"
  shows "\<exists>w'. removeOldFiles s w = Ok w' \<and>
           (\<forall>name\<in>set (entryNames (dir s) w). name = FindString name \<longrightarrow>
              (map_of (dirents w') (Join (dir s) name) = None) =
                specExpired (keepHours s) (now w) name) \<and>
           (keepHours s \<le> 0 \<longrightarrow> w' = w)"
proof (cases "keepHours s \<le> 0")
  case True
  then have r: "removeOldFiles s w = Ok w" by (simp add: removeOldFiles_def)
  have "(map_of (dirents w) (Join (dir s) name) = None) =
          specExpired (keepHours s) (now w) name"
    if "name \<in> set (entryNames (dir s) w)" for name
    using entryNames_mem [OF that] True by (simp add: specExpired_def)
  with r show ?thesis by simp
next
  case False
  then have pos: "0 < keepHours s" by simp
  from ReadDir_names [OF rd] obtain names
    where rdn: "ioutil_ReadDir (dir s) w = Inr names"
      and sn: "set names = set (entryNames (dir s) w)"
    by blast
  have nonempty: "[] \<notin> set names"
    using sn entryNames_mem by blast
  from removeFiles_result [OF nonempty rm, of s] obtain w'
    where r: "removeFiles names s w = Ok w'"
      and d: "\<forall>p. map_of (dirents w') p =
              (if \<exists>name\<in>set names. name = FindString name \<and>
                    deletable (keepHours s) (now w) name \<and> p = Join (dir s) name
               then None else map_of (dirents w) p)"
    by blast
  have ro: "removeOldFiles s w = Ok w'"
    using False rdn r by (simp add: removeOldFiles_def)
  have "(map_of (dirents w') (Join (dir s) name) = None) =
          specExpired (keepHours s) (now w) name"
    if mem: "name \<in> set (entryNames (dir s) w)" and m: "name = FindString name" for name
  proof -
    have ex: "map_of (dirents w) (Join (dir s) name) \<noteq> None"
      using entryNames_mem [OF mem] by simp
    have "(\<exists>nm\<in>set names. nm = FindString nm \<and> deletable (keepHours s) (now w) nm \<and>
             Join (dir s) name = Join (dir s) nm) = deletable (keepHours s) (now w) name"
      using mem m sn by (auto dest: Join_inject)
    with d ex have "(map_of (dirents w') (Join (dir s) name) = None) =
                      deletable (keepHours s) (now w) name"
      by simp
    with deletable_specExpired [OF pos keep] show ?thesis by simp
  qed
  with ro False show ?thesis by simp
qed


theorem retention_sweep_deletes_expired_witness:
  "keepHours rotatingBackend \<le> 2562047 \<and>
   \<not> pathFault twoArchivesWorld OpReadDir (dir rotatingBackend) \<and>
   (\<forall>p. \<not> pathFault twoArchivesWorld OpRemove p) \<and>
   (\<exists>w'. removeOldFiles rotatingBackend twoArchivesWorld = Ok w' \<and>
      map_of (dirents w') (Join (dir rotatingBackend) ''DEBUG.log.2019071000'') = None \<and>
      map_of (dirents w') (Join (dir rotatingBackend) ''DEBUG.log.2019071001'') \<noteq> None)"
proof -
  have k: "keepHours rotatingBackend \<le> 2562047"
    using twoArchives_facts by blast
  have rd: "\<not> pathFault twoArchivesWorld OpReadDir (dir rotatingBackend)"
    by (simp add: twoArchivesWorld_no_fault)
  have rm: "\<forall>p. \<not> pathFault twoArchivesWorld OpRemove p"
    by (simp add: twoArchivesWorld_no_fault)
  from retention_sweep_deletes_expired [OF k rd rm] obtain w'
    where r: "removeOldFiles rotatingBackend twoArchivesWorld = Ok w'"
      and d: "\<forall>name\<in>set (entryNames (dir rotatingBackend) twoArchivesWorld).
                name = FindString name \<longrightarrow>
                (map_of (dirents w') (Join (dir rotatingBackend) name) = None) =
                  specExpired (keepHours rotatingBackend) (now twoArchivesWorld) name"
    by blast
  from d twoArchives_facts
  have "map_of (dirents w') (Join (dir rotatingBackend) ''DEBUG.log.2019071000'') = None"
    by blast
  moreover from d twoArchives_facts
  have "map_of (dirents w') (Join (dir rotatingBackend) ''DEBUG.log.2019071001'') \<noteq> None"
    by blast
  ultimately show ?thesis using k rd rm r by blast
qed

end
